theory Spec2Isabelle
  imports Complex_Main "HOL-Library.Word" "HOL-Library.AList"
begin

section \<open>Strings and values of the host language\<close>

text \<open>
  The program is TypeScript. Its strings are sequences of 16-bit code units, so a string
  is a list of 16-bit words; \<open>lit\<close> writes one from an ASCII literal. Everything that
  comes out of \<^verbatim>\<open>JSON.parse\<close> has the static type \<^verbatim>\<open>any\<close> and is never
  type-checked by the program, so values are modelled dynamically.
\<close>

type_synonym js_string = "16 word list"

definition ch :: "char \<Rightarrow> 16 word" where
  "ch c = of_nat (of_char c)"

definition lit :: "string \<Rightarrow> js_string" where
  "lit s = map ch s"

datatype js_value =
    JUndefined
  | JNull
  | JBool bool
  | JNum rat
  | JStr js_string
  | JArr "js_value list"
  | JObj "(js_string \<times> js_value) list"

text \<open>
  A number is kept as the exact value of its decimal literal. The only thing the program
  does with a number is test it for truthiness: the 64-bit float nearest to \<open>q\<close> is zero
  exactly when \<open>\<bar>q\<bar> \<le> 2\<^sup>-\<^sup>1\<^sup>0\<^sup>7\<^sup>5\<close> (half the least subnormal, ties to even).
\<close>

fun truthy :: "js_value \<Rightarrow> bool" where
  "truthy JUndefined = False"
| "truthy JNull = False"
| "truthy (JBool b) = b"
| "truthy (JNum q) = (\<bar>q\<bar> > 1 / 2 ^ 1075)"
| "truthy (JStr s) = (s \<noteq> [])"
| "truthy (JArr _) = True"
| "truthy (JObj _) = True"

text \<open>The operator \<^verbatim>\<open>a || b\<close>.\<close>

definition or_else :: "js_value \<Rightarrow> js_value \<Rightarrow> js_value" where
  "or_else a b = (if truthy a then a else b)"

text \<open>
  Exceptions are values. An error carries its \<^verbatim>\<open>message\<close>. The wording of the messages
  the engine itself produces (a failed \<^verbatim>\<open>JSON.parse\<close>, a property read on \<^verbatim>\<open>null\<close>, a
  string that \<^verbatim>\<open>encodeURIComponent\<close> cannot encode) is not fixed by the language; the
  model uses the texts below in their place.
\<close>

datatype js_error =
    SyntaxError js_string
  | TypeError js_string
  | URIError js_string
  | Error js_string

fun message :: "js_error \<Rightarrow> js_string" where
  "message (SyntaxError m) = m"
| "message (TypeError m) = m"
| "message (URIError m) = m"
| "message (Error m) = m"

definition json_syntax_error :: js_error where
  "json_syntax_error = SyntaxError (lit ''Unexpected token in JSON'')"

definition null_property_error :: js_error where
  "null_property_error = TypeError (lit ''Cannot read properties of null'')"


text \<open>
  Reading a property \<^verbatim>\<open>v.name\<close>, for the names the program reads (\<^verbatim>\<open>convertedContent\<close>,
  \<^verbatim>\<open>summary\<close>, \<^verbatim>\<open>errors\<close>, \<^verbatim>\<open>error\<close>), none of which any prototype defines: on
  \<^verbatim>\<open>null\<close> and \<^verbatim>\<open>undefined\<close> it throws, on an object it is the member or
  \<^verbatim>\<open>undefined\<close>, on every other value it is \<^verbatim>\<open>undefined\<close>.
\<close>

fun get_property :: "js_value \<Rightarrow> js_string \<Rightarrow> js_error + js_value" where
  "get_property JUndefined name = Inl null_property_error"
| "get_property JNull name = Inl null_property_error"
| "get_property (JObj members) name =
     (case map_of members name of None \<Rightarrow> Inr JUndefined | Some v \<Rightarrow> Inr v)"
| "get_property _ name = Inr JUndefined"

section \<open>\<^verbatim>\<open>JSON.parse\<close>\<close>

text \<open>
  The grammar of ECMA-404, as \<^verbatim>\<open>JSON.parse\<close> reads it: a tokenizer, then a parser
  over the tokens that keeps the containers under construction on a stack. A repeated
  key keeps its first position and takes the last value.
\<close>

definition json_ws :: "16 word \<Rightarrow> bool" where
  "json_ws c = (c = 0x20 \<or> c = 0x09 \<or> c = 0x0A \<or> c = 0x0D)"

definition is_digit :: "16 word \<Rightarrow> bool" where
  "is_digit c = (ch CHR ''0'' \<le> c \<and> c \<le> ch CHR ''9'')"

definition digit_val :: "16 word \<Rightarrow> nat" where
  "digit_val c = unat (c - ch CHR ''0'')"

definition hex_val :: "16 word \<Rightarrow> (16 word) option" where
  "hex_val c =
     (if is_digit c then Some (c - ch CHR ''0'')
      else if ch CHR ''a'' \<le> c \<and> c \<le> ch CHR ''f'' then Some (c - ch CHR ''a'' + 10)
      else if ch CHR ''A'' \<le> c \<and> c \<le> ch CHR ''F'' then Some (c - ch CHR ''A'' + 10)
      else None)"

definition hex4 :: "16 word \<Rightarrow> 16 word \<Rightarrow> 16 word \<Rightarrow> 16 word \<Rightarrow> (16 word) option" where
  "hex4 a b c d =
     (case (hex_val a, hex_val b, hex_val c, hex_val d) of
        (Some x, Some y, Some z, Some w) \<Rightarrow> Some (((x * 16 + y) * 16 + z) * 16 + w)
      | _ \<Rightarrow> None)"

definition escape_char :: "16 word \<Rightarrow> (16 word) option" where
  "escape_char e =
     (if e = ch CHR 0x22 then Some 0x22
      else if e = ch CHR 0x5C then Some 0x5C
      else if e = ch CHR ''/'' then Some 0x2F
      else if e = ch CHR ''b'' then Some 0x08
      else if e = ch CHR ''f'' then Some 0x0C
      else if e = ch CHR ''n'' then Some 0x0A
      else if e = ch CHR ''r'' then Some 0x0D
      else if e = ch CHR ''t'' then Some 0x09
      else None)"

text \<open>
  \<open>lex_string\<close> reads a string body after its opening quote and returns the string and
  the input after the closing quote.
\<close>

fun lex_string :: "js_string \<Rightarrow> (js_string \<times> js_string) option" where
  "lex_string [] = None"
| "lex_string (c # cs) =
     (if c = ch CHR 0x22 then Some ([], cs)
      else if c = ch CHR 0x5C then
        (case cs of
           [] \<Rightarrow> None
         | e # cs' \<Rightarrow>
             if e = ch CHR ''u'' then
               (case cs' of
                  h1 # h2 # h3 # h4 # rest \<Rightarrow>
                    (case hex4 h1 h2 h3 h4 of
                       None \<Rightarrow> None
                     | Some u \<Rightarrow> map_option (apfst ((#) u)) (lex_string rest))
                | _ \<Rightarrow> None)
             else
               (case escape_char e of
                  None \<Rightarrow> None
                | Some x \<Rightarrow> map_option (apfst ((#) x)) (lex_string cs')))
      else if c < 0x20 then None
      else map_option (apfst ((#) c)) (lex_string cs))"

definition digits_val :: "js_string \<Rightarrow> nat" where
  "digits_val ds = foldl (\<lambda>a d. 10 * a + digit_val d) 0 ds"

text \<open>
  \<open>lex_number\<close> reads \<^verbatim>\<open>-?(0|[1-9][0-9]*)(\.[0-9]+)?([eE][+-]?[0-9]+)?\<close> and returns its
  value and the rest of the input.
\<close>

definition lex_fraction :: "js_string \<Rightarrow> (js_string \<times> js_string) option" where
  "lex_fraction cs =
     (case cs of
        [] \<Rightarrow> Some ([], cs)
      | c # r \<Rightarrow>
          if c = ch CHR ''.'' then
            (if takeWhile is_digit r = [] then None
             else Some (takeWhile is_digit r, dropWhile is_digit r))
          else Some ([], cs))"

definition lex_exponent :: "js_string \<Rightarrow> (int \<times> js_string) option" where
  "lex_exponent cs =
     (case cs of
        [] \<Rightarrow> Some (0, cs)
      | c # r \<Rightarrow>
          if c = ch CHR ''e'' \<or> c = ch CHR ''E'' then
            (let (neg, r') =
                   (case r of
                      [] \<Rightarrow> (False, r)
                    | s # r'' \<Rightarrow>
                        if s = ch CHR ''-'' then (True, r'')
                        else if s = ch CHR ''+'' then (False, r'')
                        else (False, r))
             in if takeWhile is_digit r' = [] then None
                else Some ((if neg then - 1 else 1) * int (digits_val (takeWhile is_digit r')),
                           dropWhile is_digit r'))
          else Some (0, cs))"

definition decimal_value :: "bool \<Rightarrow> js_string \<Rightarrow> js_string \<Rightarrow> int \<Rightarrow> rat" where
  "decimal_value neg ds fs e =
     (let m = of_nat (digits_val (ds @ fs)) :: rat;
          k = e - int (length fs);
          q = (if 0 \<le> k then m * 10 ^ nat k else m / 10 ^ nat (- k))
      in if neg then - q else q)"

definition lex_number :: "js_string \<Rightarrow> (rat \<times> js_string) option" where
  "lex_number cs =
     (let (neg, cs1) =
            (case cs of
               [] \<Rightarrow> (False, cs)
             | c # r \<Rightarrow> if c = ch CHR ''-'' then (True, r) else (False, cs));
          ds = takeWhile is_digit cs1
      in if ds = [] \<or> (1 < length ds \<and> hd ds = ch CHR ''0'') then None
         else
           (case lex_fraction (dropWhile is_digit cs1) of
              None \<Rightarrow> None
            | Some (fs, cs2) \<Rightarrow>
                (case lex_exponent cs2 of
                   None \<Rightarrow> None
                 | Some (e, cs3) \<Rightarrow> Some (decimal_value neg ds fs e, cs3))))"

datatype token =
    TLBrace | TRBrace | TLBrack | TRBrack | TColon | TComma
  | TString js_string
  | TScalar js_value

lemma lex_string_shorter:
  "lex_string cs = Some (s, rest) \<Longrightarrow> length rest < length cs"
proof (induction cs arbitrary: s rest rule: lex_string.induct)
  case 1
  then show ?case by simp
next
  case (2 c cs)
  then show ?case
    by (fastforce split: if_splits list.splits option.splits)
qed

lemma lex_fraction_shorter:
  "lex_fraction cs = Some (fs, rest) \<Longrightarrow> length rest \<le> length cs"
  by (auto simp: lex_fraction_def length_dropWhile_le le_SucI split: list.splits if_splits)

lemma lex_exponent_shorter:
  "lex_exponent cs = Some (e, rest) \<Longrightarrow> length rest \<le> length cs"
  by (auto simp: lex_exponent_def Let_def length_dropWhile_le le_SucI
           intro: le_trans [OF length_dropWhile_le]
           split: list.splits if_splits prod.splits)

lemma dropWhile_shorter:
  "takeWhile P xs \<noteq> [] \<Longrightarrow> length (dropWhile P xs) < length xs"
  by (induction xs) (auto simp: less_Suc_eq_le length_dropWhile_le split: if_splits)

lemma lex_number_shorter:
  assumes "lex_number cs = Some (q, rest)"
  shows "length rest < length cs"
proof -
  obtain neg cs1 where n: "(case cs of [] \<Rightarrow> (False, cs)
      | c # r \<Rightarrow> if c = ch CHR ''-'' then (True, r) else (False, cs)) = (neg, cs1)"
    by (cases "case cs of [] \<Rightarrow> (False, cs)
      | c # r \<Rightarrow> if c = ch CHR ''-'' then (True, r) else (False, cs)") auto
  then have l1: "length cs1 \<le> length cs"
    by (auto split: list.splits if_splits)
  from assms n obtain fs cs2 e where
    ds: "takeWhile is_digit cs1 \<noteq> []" and
    f: "lex_fraction (dropWhile is_digit cs1) = Some (fs, cs2)" and
    x: "lex_exponent cs2 = Some (e, rest)"
    by (auto simp: lex_number_def Let_def split: option.splits if_splits)
  from ds have "length (dropWhile is_digit cs1) < length cs1"
    by (rule dropWhile_shorter)
  with lex_fraction_shorter [OF f] lex_exponent_shorter [OF x] l1
  show ?thesis by linarith
qed

function tokens :: "js_string \<Rightarrow> token list option" where
  "tokens [] = Some []"
| "tokens (c # cs) =
     (if json_ws c then tokens cs
      else if c = ch CHR ''{'' then map_option ((#) TLBrace) (tokens cs)
      else if c = ch CHR ''}'' then map_option ((#) TRBrace) (tokens cs)
      else if c = ch CHR ''['' then map_option ((#) TLBrack) (tokens cs)
      else if c = ch CHR '']'' then map_option ((#) TRBrack) (tokens cs)
      else if c = ch CHR '':'' then map_option ((#) TColon) (tokens cs)
      else if c = ch CHR '','' then map_option ((#) TComma) (tokens cs)
      else if c = ch CHR 0x22 then
        (case lex_string cs of
           None \<Rightarrow> None
         | Some (s, rest) \<Rightarrow> map_option ((#) (TString s)) (tokens rest))
      else if c = ch CHR ''-'' \<or> is_digit c then
        (case lex_number (c # cs) of
           None \<Rightarrow> None
         | Some (q, rest) \<Rightarrow> map_option ((#) (TScalar (JNum q))) (tokens rest))
      else if take 4 (c # cs) = lit ''true'' then
        map_option ((#) (TScalar (JBool True))) (tokens (drop 3 cs))
      else if take 5 (c # cs) = lit ''false'' then
        map_option ((#) (TScalar (JBool False))) (tokens (drop 4 cs))
      else if take 4 (c # cs) = lit ''null'' then
        map_option ((#) (TScalar JNull)) (tokens (drop 3 cs))
      else None)"
  by pat_completeness auto
termination
proof (relation "measure length")
  fix c :: "16 word" and cs x2 x y
  assume "lex_string cs = Some x2" "(x, y) = x2"
  then show "(y, c # cs) \<in> measure length"
    using lex_string_shorter [of cs x y] by simp
next
  fix c :: "16 word" and cs x2 x y
  assume "lex_number (c # cs) = Some x2" "(x, y) = x2"
  then show "(y, c # cs) \<in> measure length"
    using lex_number_shorter [of "c # cs" x y] by simp
qed auto

text \<open>
  The parser reads one token at a time. A frame is an enclosing container waiting for
  the value being read: an array with its elements so far, or an object with its members
  so far and the key of the value being read.
\<close>

datatype frame =
    InArray "js_value list"
  | InObject "(js_string \<times> js_value) list" js_string

datatype expect =
    EValue
  | EArrayStart
  | EObjectStart
  | EKey "(js_string \<times> js_value) list"
  | EColon "(js_string \<times> js_value) list" js_string
  | EAfter js_value

fun parse_tokens :: "expect \<Rightarrow> frame list \<Rightarrow> token list \<Rightarrow> js_value option" where
  "parse_tokens (EAfter v) [] [] = Some v"
| "parse_tokens _ _ [] = None"
| "parse_tokens EValue st (TScalar v # ts) = parse_tokens (EAfter v) st ts"
| "parse_tokens EValue st (TString s # ts) = parse_tokens (EAfter (JStr s)) st ts"
| "parse_tokens EValue st (TLBrack # ts) = parse_tokens EArrayStart st ts"
| "parse_tokens EValue st (TLBrace # ts) = parse_tokens EObjectStart st ts"
| "parse_tokens EValue st (_ # ts) = None"
| "parse_tokens EArrayStart st (TRBrack # ts) = parse_tokens (EAfter (JArr [])) st ts"
| "parse_tokens EArrayStart st (TScalar v # ts) = parse_tokens (EAfter v) (InArray [] # st) ts"
| "parse_tokens EArrayStart st (TString s # ts) =
     parse_tokens (EAfter (JStr s)) (InArray [] # st) ts"
| "parse_tokens EArrayStart st (TLBrack # ts) = parse_tokens EArrayStart (InArray [] # st) ts"
| "parse_tokens EArrayStart st (TLBrace # ts) = parse_tokens EObjectStart (InArray [] # st) ts"
| "parse_tokens EArrayStart st (_ # ts) = None"
| "parse_tokens EObjectStart st (TRBrace # ts) = parse_tokens (EAfter (JObj [])) st ts"
| "parse_tokens EObjectStart st (TString k # ts) = parse_tokens (EColon [] k) st ts"
| "parse_tokens EObjectStart st (_ # ts) = None"
| "parse_tokens (EKey ms) st (TString k # ts) = parse_tokens (EColon ms k) st ts"
| "parse_tokens (EKey ms) st (_ # ts) = None"
| "parse_tokens (EColon ms k) st (TColon # ts) = parse_tokens EValue (InObject ms k # st) ts"
| "parse_tokens (EColon ms k) st (_ # ts) = None"
| "parse_tokens (EAfter v) (InArray vs # st) (TComma # ts) =
     parse_tokens EValue (InArray (vs @ [v]) # st) ts"
| "parse_tokens (EAfter v) (InArray vs # st) (TRBrack # ts) =
     parse_tokens (EAfter (JArr (vs @ [v]))) st ts"
| "parse_tokens (EAfter v) (InObject ms k # st) (TComma # ts) =
     parse_tokens (EKey (AList.update k v ms)) st ts"
| "parse_tokens (EAfter v) (InObject ms k # st) (TRBrace # ts) =
     parse_tokens (EAfter (JObj (AList.update k v ms))) st ts"
| "parse_tokens (EAfter v) _ (_ # ts) = None"

definition JSON_parse :: "js_string \<Rightarrow> js_error + js_value" where
  "JSON_parse text =
     (case tokens text of
        None \<Rightarrow> Inl json_syntax_error
      | Some ts \<Rightarrow>
          (case parse_tokens EValue [] ts of
             None \<Rightarrow> Inl json_syntax_error
           | Some v \<Rightarrow> Inr v))"

section \<open>The conversion service (\<^verbatim>\<open>services/geminiService.ts\<close>)\<close>

text \<open>
  The interface \<^verbatim>\<open>ConversionResult\<close>. TypeScript erases the types at run time and the
  fields are filled from a parsed value of type \<^verbatim>\<open>any\<close>, so each field holds a
  value; \<open>errors\<close> is \<open>JUndefined\<close> when absent.
\<close>

record ConversionResult =
  convertedContent :: js_value
  summary :: js_value
  errors :: js_value

text \<open>What the interfaces \<^verbatim>\<open>ConversionError\<close> and \<^verbatim>\<open>ConversionResult\<close> declare.\<close>

definition is_string :: "js_value \<Rightarrow> bool" where
  "is_string v = (case v of JStr _ \<Rightarrow> True | _ \<Rightarrow> False)"

definition is_ConversionError :: "js_value \<Rightarrow> bool" where
  "is_ConversionError v =
     (case v of
        JObj ms \<Rightarrow>
          list_all (\<lambda>name. case map_of ms name of Some x \<Rightarrow> is_string x | None \<Rightarrow> False)
            [lit ''snippet'', lit ''message'', lit ''suggestion'']
      | _ \<Rightarrow> False)"

definition is_errors :: "js_value \<Rightarrow> bool" where
  "is_errors v =
     (case v of JUndefined \<Rightarrow> True | JArr es \<Rightarrow> list_all is_ConversionError es | _ \<Rightarrow> False)"

definition well_formed :: "ConversionResult \<Rightarrow> bool" where
  "well_formed r =
     (is_string (convertedContent r) \<and> is_string (summary r) \<and> is_errors (errors r))"

text \<open>
  The external capability is \<^verbatim>\<open>ai.models.generateContent\<close>. A request carries the model
  name and the input text; the instruction text, the MIME type and the response schema
  are the same constants in every request. The capability is a collaborator with a state
  of its own, of any type \<open>'w\<close>: an invocation takes that state and a request and gives
  the outcome, which is an error thrown or a response whose \<^verbatim>\<open>text\<close> is a string or
  \<^verbatim>\<open>undefined\<close>, and the state after the invocation. The service has no other access to
  that state, so what the state has become tells how the capability was invoked. The
  client object is built before the call; building it is not a point of failure.
\<close>

record request =
  model :: js_string
  contents :: js_string

type_synonym 'w capability = "'w \<Rightarrow> request \<Rightarrow> (js_error + js_string option) \<times> 'w"

definition request_for :: "js_string \<Rightarrow> request" where
  "request_for input = \<lparr>model = lit ''gemini-3.1-pro-preview'', contents = input\<rparr>"

text \<open>\<^verbatim>\<open>response.text || "{}"\<close>\<close>

definition text_or_default :: "js_string option \<Rightarrow> js_string" where
  "text_or_default text =
     (case text of None \<Rightarrow> lit ''{}'' | Some t \<Rightarrow> if t = [] then lit ''{}'' else t)"

text \<open>
  The object literal returned at the end of \<^verbatim>\<open>convertToPressbooks\<close>, from the parsed
  value \<^verbatim>\<open>result\<close>.
\<close>

definition build_result :: "js_value \<Rightarrow> js_error + ConversionResult" where
  "build_result result =
     (case get_property result (lit ''convertedContent'') of
        Inl e \<Rightarrow> Inl e
      | Inr c \<Rightarrow>
          (case get_property result (lit ''summary'') of
             Inl e \<Rightarrow> Inl e
           | Inr s \<Rightarrow>
               (case get_property result (lit ''errors'') of
                  Inl e \<Rightarrow> Inl e
                | Inr es \<Rightarrow>
                    Inr \<lparr>convertedContent = or_else c (JStr []),
                         summary = or_else s (JStr []),
                         errors = es\<rparr>)))"

definition parse_response :: "js_string option \<Rightarrow> js_error + ConversionResult" where
  "parse_response text =
     (case JSON_parse (text_or_default text) of
        Inl e \<Rightarrow> Inl e
      | Inr result \<Rightarrow> build_result result)"

definition convertToPressbooks ::
    "'w capability \<Rightarrow> js_string \<Rightarrow> 'w \<Rightarrow> (js_error + ConversionResult) \<times> 'w" where
  "convertToPressbooks ai input w =
     (let (response, w') = ai w (request_for input)
      in case response of
           Inl e \<Rightarrow> (Inl e, w')
         | Inr text \<Rightarrow> (parse_response text, w'))"

definition empty_result :: ConversionResult where
  "empty_result = \<lparr>convertedContent = JStr [], summary = JStr [], errors = JUndefined\<rparr>"

text \<open>
  The delimiters that the instruction text sent with every request tells the capability
  not to use: \<^verbatim>\<open>$...$\<close>, \<^verbatim>\<open>$$...$$\<close>, \<^verbatim>\<open>\(...\)\<close> and \<^verbatim>\<open>\[...\]\<close>.
\<close>

definition forbidden_delimiters :: "js_string list" where
  "forbidden_delimiters =
     [lit ''$'', lit ''$$'',
      [0x5C, ch CHR ''(''], [0x5C, ch CHR '')''],
      [0x5C, ch CHR ''[''], [0x5C, ch CHR '']'']]"

fun occurs_in :: "js_string \<Rightarrow> js_string \<Rightarrow> bool" where
  "occurs_in d [] = (d = [])"
| "occurs_in d (c # cs) = (take (length d) (c # cs) = d \<or> occurs_in d cs)"

definition has_forbidden_delimiter :: "js_value \<Rightarrow> bool" where
  "has_forbidden_delimiter v =
     (case v of JStr s \<Rightarrow> list_ex (\<lambda>d. occurs_in d s) forbidden_delimiters | _ \<Rightarrow> False)"

section \<open>The application state and its handlers (\<^verbatim>\<open>App.tsx\<close>)\<close>

datatype tab = TextTab | FileTab | UrlTab

record app_state =
  input :: js_string
  url :: js_string
  result :: "ConversionResult option"
  isLoading :: bool
  error :: "js_string option"
  copied :: bool
  activeTab :: tab

text \<open>
  \<^verbatim>\<open>String.prototype.trim\<close> removes white space and line terminators from both ends.
\<close>

definition is_white_space :: "16 word \<Rightarrow> bool" where
  "is_white_space c =
     (c \<in> {0x09, 0x0A, 0x0B, 0x0C, 0x0D, 0x20, 0xA0, 0x1680, 0x2028, 0x2029, 0x202F,
            0x205F, 0x3000, 0xFEFF}
      \<or> (0x2000 \<le> c \<and> c \<le> 0x200A))"

definition trim :: "js_string \<Rightarrow> js_string" where
  "trim s = rev (dropWhile is_white_space (rev (dropWhile is_white_space s)))"

text \<open>
  \<^verbatim>\<open>handleConvert\<close>: the guard, the two resets, the awaited call with its
  \<^verbatim>\<open>try\<close>/\<^verbatim>\<open>catch\<close>/\<^verbatim>\<open>finally\<close>.
\<close>

definition handleConvert ::
    "'w capability \<Rightarrow> app_state \<Rightarrow> 'w \<Rightarrow> app_state \<times> 'w" where
  "handleConvert ai s w =
     (if trim (input s) = [] then (s, w)
      else
        (let s1 = s\<lparr>isLoading := True\<rparr>;
             s2 = s1\<lparr>error := None\<rparr>;
             (res, w') = convertToPressbooks ai (input s) w;
             s3 = (case res of
                     Inr r \<Rightarrow> s2\<lparr>result := Some r\<rparr>
                   | Inl err \<Rightarrow> s2\<lparr>error := Some (message err)\<rparr>)
         in (s3\<lparr>isLoading := False\<rparr>, w')))"

text \<open>The initial values of the \<^verbatim>\<open>useState\<close> hooks.\<close>

definition initial_state :: app_state where
  "initial_state =
     \<lparr>input = [], url = [], result = None, isLoading = False, error = None,
      copied = False, activeTab = TextTab\<rparr>"

text \<open>
  A capability whose state is the list of the requests it has received: every invocation
  appends its request, and the outcome is what \<open>behaviour\<close> says for the requests received
  before and this one. Two of them for concrete runs: one answers every request with the
  same response text, the other throws the same error on every request.
\<close>

definition recording ::
    "(request list \<Rightarrow> request \<Rightarrow> js_error + js_string option) \<Rightarrow> request list capability" where
  "recording behaviour = (\<lambda>received req. (behaviour received req, received @ [req]))"

definition answering :: "js_string option \<Rightarrow> request list capability" where
  "answering text = recording (\<lambda>received req. Inr text)"

definition failing :: "js_error \<Rightarrow> request list capability" where
  "failing e = recording (\<lambda>received req. Inl e)"

text \<open>
  A property is missing from a value when reading it gives \<^verbatim>\<open>undefined\<close>. A candidate is
  typed as the response schema asks when each of the three properties is missing or has
  the declared type.
\<close>

definition missing :: "js_value \<Rightarrow> js_string \<Rightarrow> bool" where
  "missing v name = (get_property v name = Inr JUndefined)"

definition has_type :: "(js_value \<Rightarrow> bool) \<Rightarrow> js_value \<Rightarrow> js_string \<Rightarrow> bool" where
  "has_type T v name = (case get_property v name of Inr x \<Rightarrow> T x | Inl _ \<Rightarrow> False)"

definition schema_typed :: "js_value \<Rightarrow> bool" where
  "schema_typed v =
     ((missing v (lit ''convertedContent'') \<or> has_type is_string v (lit ''convertedContent'')) \<and>
      (missing v (lit ''summary'') \<or> has_type is_string v (lit ''summary'')) \<and>
      has_type is_errors v (lit ''errors''))"

subsection \<open>File extraction\<close>

text \<open>
  A loaded PDF document as \<^verbatim>\<open>pdfjs\<close> presents it: \<^verbatim>\<open>numPages\<close> pages, numbered from 1;
  each page either gives the items of its text content or makes \<^verbatim>\<open>getPage\<close> or
  \<^verbatim>\<open>getTextContent\<close> reject. The handler reads the \<^verbatim>\<open>str\<close> of every item.
\<close>

record text_item =
  str :: js_string

type_synonym pdf_page = "js_error + text_item list"

type_synonym pdf_document = "pdf_page list"

definition numPages :: "pdf_document \<Rightarrow> nat" where
  "numPages pdf = length pdf"

definition getPage :: "pdf_document \<Rightarrow> nat \<Rightarrow> pdf_page" where
  "getPage pdf i = pdf ! (i - 1)"

text \<open>\<^verbatim>\<open>Array.prototype.join\<close> on an array of strings.\<close>

fun join :: "js_string \<Rightarrow> js_string list \<Rightarrow> js_string" where
  "join sep [] = []"
| "join sep [x] = x"
| "join sep (x # y # ys) = x @ sep @ join sep (y # ys)"

text \<open>The loop \<^verbatim>\<open>for (let i = 1; i <= pdf.numPages; i++)\<close> of \<^verbatim>\<open>extractTextFromPDF\<close>.\<close>

function extract_pages :: "pdf_document \<Rightarrow> nat \<Rightarrow> js_string \<Rightarrow> js_error + js_string" where
  "extract_pages pdf i fullText =
     (if i \<le> numPages pdf then
        (case getPage pdf i of
           Inl e \<Rightarrow> Inl e
         | Inr items \<Rightarrow>
             (let pageText = join (lit '' '') (map str items)
              in extract_pages pdf (i + 1) (fullText @ pageText @ lit ''\<newline>'')))
      else Inr fullText)"
  by pat_completeness auto
termination
  by (relation "measure (\<lambda>(pdf, i, fullText). Suc (numPages pdf) - i)") auto

text \<open>
  \<^verbatim>\<open>extractTextFromPDF\<close>, from the outcome of \<^verbatim>\<open>pdfjs.getDocument\<close>: a document that
  cannot be loaded rejects.
\<close>

definition extractTextFromPDF :: "js_error + pdf_document \<Rightarrow> js_error + js_string" where
  "extractTextFromPDF loaded =
     (case loaded of Inl e \<Rightarrow> Inl e | Inr pdf \<Rightarrow> extract_pages pdf 1 [])"

text \<open>
  The text as the specification describes it: page after page, the items of the page
  joined by single spaces, and a line feed after each page.
\<close>

definition pages_text :: "text_item list list \<Rightarrow> js_string" where
  "pages_text pages =
     concat (map (\<lambda>items. join (lit '' '') (map str items) @ lit ''\<newline>'') pages)"

subsection \<open>Text as bytes\<close>

text \<open>
  A string that leaves the program as bytes is read as Unicode scalar values, a surrogate
  pair as one value and a surrogate without its partner as U+FFFD, and every scalar value
  is written in UTF-8. Scalar values and bytes are natural numbers.
\<close>

fun scalar_values :: "js_string \<Rightarrow> nat list" where
  "scalar_values [] = []"
| "scalar_values [c] = [if 0xD800 \<le> c \<and> c \<le> 0xDFFF then 0xFFFD else unat c]"
| "scalar_values (c # d # cs) =
     (if 0xD800 \<le> c \<and> c \<le> 0xDBFF then
        (if 0xDC00 \<le> d \<and> d \<le> 0xDFFF then
           (0x10000 + (unat c - 0xD800) * 0x400 + (unat d - 0xDC00)) # scalar_values cs
         else 0xFFFD # scalar_values (d # cs))
      else if 0xDC00 \<le> c \<and> c \<le> 0xDFFF then 0xFFFD # scalar_values (d # cs)
      else unat c # scalar_values (d # cs))"

definition utf8_of :: "nat \<Rightarrow> nat list" where
  "utf8_of cp =
     (if cp < 0x80 then [cp]
      else if cp < 0x800 then [0xC0 + cp div 0x40, 0x80 + cp mod 0x40]
      else if cp < 0x10000 then
        [0xE0 + cp div 0x1000, 0x80 + cp div 0x40 mod 0x40, 0x80 + cp mod 0x40]
      else
        [0xF0 + cp div 0x40000, 0x80 + cp div 0x1000 mod 0x40, 0x80 + cp div 0x40 mod 0x40,
         0x80 + cp mod 0x40])"

definition string_bytes :: "js_string \<Rightarrow> nat list" where
  "string_bytes s = concat (map utf8_of (scalar_values s))"

text \<open>
  Reading bytes back: a UTF-8 sequence as scalar values, and the scalar values as a
  string.
\<close>

fun utf8_decode :: "nat list \<Rightarrow> nat list" where
  "utf8_decode [] = []"
| "utf8_decode (b # bs) =
     (if b < 0x80 then b # utf8_decode bs
      else if b < 0xE0 then
        (case bs of
           b2 # r \<Rightarrow> ((b - 0xC0) * 0x40 + (b2 - 0x80)) # utf8_decode r
         | _ \<Rightarrow> [0xFFFD])
      else if b < 0xF0 then
        (case bs of
           b2 # b3 # r \<Rightarrow>
             ((b - 0xE0) * 0x1000 + (b2 - 0x80) * 0x40 + (b3 - 0x80)) # utf8_decode r
         | _ \<Rightarrow> [0xFFFD])
      else
        (case bs of
           b2 # b3 # b4 # r \<Rightarrow>
             ((b - 0xF0) * 0x40000 + (b2 - 0x80) * 0x1000 + (b3 - 0x80) * 0x40 + (b4 - 0x80)) #
               utf8_decode r
         | _ \<Rightarrow> [0xFFFD]))"

definition utf16_of :: "nat \<Rightarrow> js_string" where
  "utf16_of cp =
     (if cp < 0x10000 then [of_nat cp]
      else [of_nat (0xD800 + (cp - 0x10000) div 0x400),
            of_nat (0xDC00 + (cp - 0x10000) mod 0x400)])"

definition decoded :: "nat list \<Rightarrow> js_string" where
  "decoded bytes = concat (map utf16_of (utf8_decode bytes))"

subsection \<open>URL import\<close>

text \<open>
  The server route \<^verbatim>\<open>/api/fetch-url\<close>. The remote site is a parameter: given the URLs
  fetched so far and a URL, \<^verbatim>\<open>fetch\<close> rejects (a network failure) or resolves with a
  response; reading the body of a response may reject too. The route answers in one of
  three ways: \<^verbatim>\<open>res.send(html)\<close>, \<^verbatim>\<open>res.status(400).json({ error })\<close> or
  \<^verbatim>\<open>res.status(500).json({ error })\<close>. The query parameter is \<open>None\<close> when it is absent
  or not a string.
\<close>

record http_response =
  ok :: bool
  statusText :: js_string
  body :: "js_error + js_string"

type_synonym remote = "js_string list \<Rightarrow> js_string \<Rightarrow> js_error + http_response"



text \<open>
  \<^verbatim>\<open>encodeURIComponent\<close> throws on a string with a surrogate code unit that has no
  partner; every other string reaches the route as it was typed.
\<close>

fun lone_surrogate :: "js_string \<Rightarrow> bool" where
  "lone_surrogate [] = False"
| "lone_surrogate [c] = (0xD800 \<le> c \<and> c \<le> 0xDFFF)"
| "lone_surrogate (c # d # cs) =
     (if 0xD800 \<le> c \<and> c \<le> 0xDBFF then
        (if 0xDC00 \<le> d \<and> d \<le> 0xDFFF then lone_surrogate cs else True)
      else if 0xDC00 \<le> c \<and> c \<le> 0xDFFF then True
      else lone_surrogate (d # cs))"

text \<open>
  The body of the \<^verbatim>\<open>try\<close> of \<^verbatim>\<open>handleFetchUrl\<close>: the request to the route, which may
  itself not get through (\<open>link\<close> is then the error the browser's \<^verbatim>\<open>fetch\<close> rejects
  with), the check of \<^verbatim>\<open>response.ok\<close>, and the content or the thrown error.
\<close>








definition unreachable :: "js_error \<Rightarrow> remote" where
  "unreachable e = (\<lambda>fetched u. Inl e)"

subsection \<open>Export\<close>

text \<open>
  What a handler hands to the browser: a blob saved under a file name, or a PDF document
  saved under a file name. A blob is its list of parts and its MIME type. A PDF document
  is the list of drawing operations made on it, in order; positions are in the unit of
  the document and the arithmetic on them is exact.
\<close>

record blob =
  blobParts :: "js_value list"
  blobType :: js_string

datatype pdf_op =
    AddPage
  | DrawText js_string rat rat

datatype effect =
    SaveBlob js_string blob
  | SavePdf js_string "pdf_op list"

definition downloadMarkdown :: "app_state \<Rightarrow> app_state \<times> effect list" where
  "downloadMarkdown s =
     (case result s of
        None \<Rightarrow> (s, [])
      | Some r \<Rightarrow>
          (s, [SaveBlob (lit ''pressbook-chapter.md'')
                 \<lparr>blobParts = [convertedContent r], blobType = lit ''text/markdown''\<rparr>]))"

text \<open>
  What the browser writes for a blob. Each part that is not a string is first converted to
  one; the conversion of a number depends on floating point and is a parameter \<open>num\<close>.
  An array is the conversions of its elements joined by commas, with \<^verbatim>\<open>null\<close> and
  \<^verbatim>\<open>undefined\<close> elements empty. The parts, one after the other, are written as bytes.
\<close>

fun ToString :: "(rat \<Rightarrow> js_string) \<Rightarrow> js_value \<Rightarrow> js_string" where
  "ToString num JUndefined = lit ''undefined''"
| "ToString num JNull = lit ''null''"
| "ToString num (JBool b) = (if b then lit ''true'' else lit ''false'')"
| "ToString num (JNum q) = num q"
| "ToString num (JStr s) = s"
| "ToString num (JArr vs) =
     join (lit '','')
       (map (\<lambda>v. if v = JUndefined \<or> v = JNull then [] else ToString num v) vs)"
| "ToString num (JObj members) = lit ''[object Object]''"

definition blob_bytes :: "(rat \<Rightarrow> js_string) \<Rightarrow> blob \<Rightarrow> nat list" where
  "blob_bytes num b = string_bytes (concat (map (ToString num) (blobParts b)))"

text \<open>A number conversion for concrete runs in which no number is converted.\<close>

definition unformatted :: "rat \<Rightarrow> js_string" where
  "unformatted q = []"

text \<open>The \<^verbatim>\<open>forEach\<close> over the wrapped lines, with its \<^verbatim>\<open>cursorY\<close>.\<close>

fun draw_lines :: "rat \<Rightarrow> rat \<Rightarrow> js_string list \<Rightarrow> rat \<Rightarrow> pdf_op list" where
  "draw_lines pageHeight margin [] cursorY = []"
| "draw_lines pageHeight margin (line # lines) cursorY =
     (if cursorY > pageHeight - margin then
        AddPage # DrawText line margin margin #
          draw_lines pageHeight margin lines (margin + 7)
      else
        DrawText line margin cursorY #
          draw_lines pageHeight margin lines (cursorY + 7))"

text \<open>
  \<^verbatim>\<open>downloadPDF\<close>. The library's \<^verbatim>\<open>splitTextToSize\<close> and the page size of a new document
  are parameters.
\<close>

definition downloadPDF ::
    "(js_value \<Rightarrow> rat \<Rightarrow> js_string list) \<Rightarrow> rat \<Rightarrow> rat \<Rightarrow> app_state \<Rightarrow> app_state \<times> effect list" where
  "downloadPDF splitTextToSize pageWidth pageHeight s =
     (case result s of
        None \<Rightarrow> (s, [])
      | Some r \<Rightarrow>
          (let margin = 10;
               maxLineWidth = pageWidth - margin * 2;
               lines = splitTextToSize (convertedContent r) maxLineWidth
           in (s, [SavePdf (lit ''pressbook-chapter.pdf'')
                     (draw_lines pageHeight margin lines margin)])))"

text \<open>
  The layout as the specification describes it: a fixed number of lines on every page,
  each line one fixed step below the one before, a new page before the first line that
  does not fit.
\<close>

definition lines_per_page :: "rat \<Rightarrow> nat" where
  "lines_per_page pageHeight = nat \<lfloor>(pageHeight - 20) / 7\<rfloor> + 1"

definition place_line :: "nat \<Rightarrow> nat \<times> js_string \<Rightarrow> pdf_op list" where
  "place_line n p =
     (if 0 < fst p \<and> fst p mod n = 0 then [AddPage] else []) @
     [DrawText (snd p) 10 (10 + 7 * of_nat (fst p mod n))]"

definition paged :: "nat \<Rightarrow> js_string list \<Rightarrow> pdf_op list" where
  "paged n lines = concat (map (place_line n) (enumerate 0 lines))"

text \<open>A splitter for concrete runs, which returns the same lines for every content.\<close>

definition fixed_lines :: "js_string list \<Rightarrow> js_value \<Rightarrow> rat \<Rightarrow> js_string list" where
  "fixed_lines ls = (\<lambda>content width. ls)"

text \<open>The page height of a new document: A4 (841.89 points) in millimetres.\<close>

definition a4_height :: rat where
  "a4_height = (84189 / 100) / (72 / (254 / 10))"

text \<open>
  A result for concrete runs.
\<close>

definition sample_result :: ConversionResult where
  "sample_result =
     \<lparr>convertedContent = JStr (lit ''[latex]x[/latex]''), summary = JStr (lit ''1 equation''),
      errors = JUndefined\<rparr>"

section \<open>Properties of the conversion service\<close>

lemmas json_eval = JSON_parse_def lit_def ch_def json_ws_def is_digit_def

lemma parse_empty_object: "JSON_parse (lit ''{}'') = Inr (JObj [])"
  by (simp add: json_eval)

lemma build_result_empty_object: "build_result (JObj []) = Inr empty_result"
  by (simp add: build_result_def empty_result_def or_else_def)

lemma parse_response_default:
  "text = None \<or> text = Some [] \<Longrightarrow> parse_response text = Inr empty_result"
  by (auto simp: parse_response_def text_or_default_def parse_empty_object
                 build_result_empty_object)

lemma get_property_total:
  "v \<noteq> JNull \<Longrightarrow> v \<noteq> JUndefined \<Longrightarrow> \<exists>x. get_property v name = Inr x"
  by (cases v) (auto split: option.splits)

lemma or_else_string: "is_string c \<Longrightarrow> is_string (or_else c (JStr []))"
  by (simp add: or_else_def is_string_def)

lemma or_else_undefined: "or_else JUndefined d = d"
  by (simp add: or_else_def)

lemma convert_outcome:
  "fst (convertToPressbooks ai inp w) =
     (case fst (ai w (request_for inp)) of
        Inl e \<Rightarrow> Inl e
      | Inr text \<Rightarrow> parse_response text)"
  by (simp add: convertToPressbooks_def split: prod.splits sum.splits)

text \<open>
  C1, as amended. The fallback to the empty result is for a response without text: when
  \<^verbatim>\<open>response.text\<close> is \<^verbatim>\<open>undefined\<close> or empty, the default \<^verbatim>\<open>"{}"\<close> is parsed and the result
  has empty \<open>convertedContent\<close> and \<open>summary\<close> and no \<open>errors\<close>. A text that is not empty and
  that \<^verbatim>\<open>JSON.parse\<close> rejects makes the call fail with the parser's own exception. An
  error thrown by the capability is the error of the call.
\<close>

theorem convert_parse_fallback:
  "(fst (ai w (request_for inp)) = Inr text \<and> (text = None \<or> text = Some []) \<longrightarrow>
      fst (convertToPressbooks ai inp w) = Inr empty_result) \<and>
   (fst (ai w (request_for inp)) = Inr (Some t) \<and> t \<noteq> [] \<and> JSON_parse t = Inl e \<longrightarrow>
      fst (convertToPressbooks ai inp w) = Inl e) \<and>
   (fst (ai w (request_for inp)) = Inl e' \<longrightarrow>
      fst (convertToPressbooks ai inp w) = Inl e')"
  by (auto simp: convertToPressbooks_def parse_response_default split: prod.splits)
     (simp add: parse_response_def text_or_default_def)

text \<open>
  The three cases at concrete collaborators: no text at all, the text \<^verbatim>\<open>oops\<close>, and a
  capability that throws.
\<close>

theorem convert_parse_fallback_witness:
  "fst (answering None [] (request_for (lit ''x''))) = Inr None \<and>
   fst (convertToPressbooks (answering None) (lit ''x'') []) = Inr empty_result \<and>
   fst (answering (Some (lit ''oops'')) [] (request_for (lit ''x''))) = Inr (Some (lit ''oops'')) \<and>
   lit ''oops'' \<noteq> [] \<and>
   JSON_parse (lit ''oops'') = Inl json_syntax_error \<and>
   fst (convertToPressbooks (answering (Some (lit ''oops''))) (lit ''x'') []) =
     Inl json_syntax_error \<and>
   fst (failing (Error (lit ''unreachable'')) [] (request_for (lit ''x''))) =
     Inl (Error (lit ''unreachable'')) \<and>
   fst (convertToPressbooks (failing (Error (lit ''unreachable''))) (lit ''x'') []) =
     Inl (Error (lit ''unreachable''))"
proof -
  have a: "fst (answering None [] (request_for (lit ''x''))) = Inr None"
    by (simp add: answering_def recording_def)
  have f: "fst (failing (Error (lit ''unreachable'')) [] (request_for (lit ''x''))) =
     Inl (Error (lit ''unreachable''))"
    by (simp add: failing_def recording_def)
  have b: "fst (answering (Some (lit ''oops'')) [] (request_for (lit ''x''))) =
     Inr (Some (lit ''oops''))"
    by (simp add: answering_def recording_def)
  have c: "lit ''oops'' \<noteq> []"
    by (simp add: lit_def)
  have d: "JSON_parse (lit ''oops'') = Inl json_syntax_error"
    by (simp add: json_eval)
  from a b c d f
    convert_parse_fallback [of "answering None" "[]" "lit ''x''" None, THEN conjunct1]
    convert_parse_fallback [of "answering (Some (lit ''oops''))" "[]" "lit ''x''" _ "lit ''oops''"
       json_syntax_error, THEN conjunct2, THEN conjunct1]
    convert_parse_fallback [of "failing (Error (lit ''unreachable''))" "[]" "lit ''x''" _ _ _
       "Error (lit ''unreachable'')", THEN conjunct2, THEN conjunct2]
  show ?thesis by simp
qed

text \<open>
  C1 as stated fails: the capability answers with the text \<^verbatim>\<open>oops\<close>, which is not JSON, and
  the call ends in the \<^verbatim>\<open>SyntaxError\<close> of \<^verbatim>\<open>JSON.parse\<close>, not in the empty result.
\<close>

theorem unparseable_text_counterexample:
  "fst (convertToPressbooks (answering (Some (lit ''oops''))) (lit ''x'') []) =
     Inl json_syntax_error"
  by (simp add: convertToPressbooks_def answering_def recording_def parse_response_def
                text_or_default_def json_eval)

text \<open>
  C2, as amended. For every parsed candidate other than \<^verbatim>\<open>null\<close> the result is built
  without an exception; a missing \<open>convertedContent\<close> becomes the empty string, a missing
  \<open>summary\<close> becomes the empty string, a missing \<open>errors\<close> stays absent. Properties that
  are present are not type-checked: the result is well-formed when the candidate is typed
  as the schema asks.
\<close>

theorem build_result_defaults:
  assumes "v \<noteq> JNull" and "v \<noteq> JUndefined"
  shows "\<exists>r. build_result v = Inr r \<and>
           (missing v (lit ''convertedContent'') \<longrightarrow> convertedContent r = JStr []) \<and>
           (missing v (lit ''summary'') \<longrightarrow> summary r = JStr []) \<and>
           (missing v (lit ''errors'') \<longrightarrow> errors r = JUndefined) \<and>
           (schema_typed v \<longrightarrow> well_formed r)"
proof -
  from assms obtain c s es where
    "get_property v (lit ''convertedContent'') = Inr c"
    "get_property v (lit ''summary'') = Inr s"
    "get_property v (lit ''errors'') = Inr es"
    using get_property_total by blast
  then show ?thesis
    by (auto simp: build_result_def missing_def schema_typed_def has_type_def well_formed_def
                   or_else_string or_else_undefined is_string_def [of "JStr []"])
qed

text \<open>The candidate \<^verbatim>\<open>{}\<close>, in which all three properties are missing.\<close>

theorem build_result_defaults_witness:
  "JObj [] \<noteq> JNull \<and> JObj [] \<noteq> JUndefined \<and>
   missing (JObj []) (lit ''convertedContent'') \<and> missing (JObj []) (lit ''summary'') \<and>
   missing (JObj []) (lit ''errors'') \<and> schema_typed (JObj []) \<and>
   (\<exists>r. build_result (JObj []) = Inr r \<and> convertedContent r = JStr [] \<and> summary r = JStr [] \<and>
        errors r = JUndefined \<and> well_formed r)"
proof -
  have m: "missing (JObj []) (lit ''convertedContent'')" "missing (JObj []) (lit ''summary'')"
    "missing (JObj []) (lit ''errors'')"
    by (simp_all add: missing_def)
  have t: "schema_typed (JObj [])"
    by (simp add: schema_typed_def missing_def has_type_def is_errors_def)
  from m t build_result_defaults [of "JObj []"] show ?thesis by auto
qed

text \<open>
  C2 as stated fails: \<^verbatim>\<open>JSON.parse("null")\<close> is a parsed candidate, and reading its
  \<open>convertedContent\<close> throws a \<^verbatim>\<open>TypeError\<close>.
\<close>

theorem null_candidate_counterexample:
  "build_result JNull = Inl null_property_error"
  by (simp add: build_result_def)

text \<open>
  C3. One call of \<^verbatim>\<open>convertToPressbooks\<close> invokes the capability exactly once, with the
  request for its input, on every path. For every capability and every state of it, the
  state after the call is the state after that one invocation, and the outcome of the
  call comes from the outcome of that invocation: an error thrown is passed on, a response
  is parsed. A capability that records the requests it receives has, after the call,
  received exactly one more, whether it answered or threw.
\<close>

theorem convert_invokes_once:
  "snd (convertToPressbooks ai inp w) = snd (ai w (request_for inp)) \<and>
   fst (convertToPressbooks ai inp w) =
     (case fst (ai w (request_for inp)) of
        Inl e \<Rightarrow> Inl e
      | Inr text \<Rightarrow> parse_response text) \<and>
   snd (convertToPressbooks (recording behaviour) inp received) = received @ [request_for inp]"
  by (simp add: convertToPressbooks_def recording_def split: prod.splits sum.splits)

text \<open>
  C9, as amended. The service does not inspect the converted content. When the response
  parses to a value whose \<open>convertedContent\<close> is a string, the conversion succeeds and
  returns exactly that string, so the result is free of the forbidden delimiters exactly
  when the capability's answer is.
\<close>

theorem convert_returns_content_unchecked:
  assumes "fst (ai w (request_for inp)) = Inr (Some t)" and "t \<noteq> []"
    and "JSON_parse t = Inr v"
    and "get_property v (lit ''convertedContent'') = Inr (JStr c)"
  shows "\<exists>r. fst (convertToPressbooks ai inp w) = Inr r \<and> convertedContent r = JStr c"
proof -
  from assms(4) have "v \<noteq> JNull" "v \<noteq> JUndefined"
    by auto
  then obtain s es where
    "get_property v (lit ''summary'') = Inr s" "get_property v (lit ''errors'') = Inr es"
    using get_property_total by blast
  with assms show ?thesis
    by (simp add: convert_outcome parse_response_def text_or_default_def
                  build_result_def or_else_def)
qed

text \<open>A response whose content is \<^verbatim>\<open>$x$\<close>.\<close>

theorem convert_returns_content_unchecked_witness:
  \<open>fst (answering (Some (lit ''{"convertedContent":"$x$","summary":"ok"}'')) []
          (request_for (lit ''$x$''))) =
     Inr (Some (lit ''{"convertedContent":"$x$","summary":"ok"}'')) \<and>
   lit ''{"convertedContent":"$x$","summary":"ok"}'' \<noteq> [] \<and>
   JSON_parse (lit ''{"convertedContent":"$x$","summary":"ok"}'') =
     Inr (JObj [(lit ''convertedContent'', JStr (lit ''$x$'')),
                (lit ''summary'', JStr (lit ''ok''))]) \<and>
   get_property
       (JObj [(lit ''convertedContent'', JStr (lit ''$x$'')), (lit ''summary'', JStr (lit ''ok''))])
       (lit ''convertedContent'') = Inr (JStr (lit ''$x$'')) \<and>
   (\<exists>r. fst (convertToPressbooks
                (answering (Some (lit ''{"convertedContent":"$x$","summary":"ok"}'')))
                (lit ''$x$'') []) = Inr r \<and>
        convertedContent r = JStr (lit ''$x$''))\<close>
proof -
  have a: \<open>fst (answering (Some (lit ''{"convertedContent":"$x$","summary":"ok"}'')) []
          (request_for (lit ''$x$''))) =
     Inr (Some (lit ''{"convertedContent":"$x$","summary":"ok"}''))\<close>
    by (simp add: answering_def recording_def)
  have b: \<open>lit ''{"convertedContent":"$x$","summary":"ok"}'' \<noteq> []\<close>
    by (simp add: lit_def)
  have c: \<open>JSON_parse (lit ''{"convertedContent":"$x$","summary":"ok"}'') =
     Inr (JObj [(lit ''convertedContent'', JStr (lit ''$x$'')),
                (lit ''summary'', JStr (lit ''ok''))])\<close>
    by (simp add: json_eval)
  have d: \<open>get_property
       (JObj [(lit ''convertedContent'', JStr (lit ''$x$'')), (lit ''summary'', JStr (lit ''ok''))])
       (lit ''convertedContent'') = Inr (JStr (lit ''$x$''))\<close>
    by simp
  from convert_returns_content_unchecked
         [of \<open>answering (Some (lit ''{"convertedContent":"$x$","summary":"ok"}''))\<close> "[]"
             "lit ''$x$''" _ _ "lit ''$x$''", OF a b c d] a b c d
  show ?thesis
    by blast
qed

text \<open>
  C9 as stated fails: the capability answers with a content that still has dollar-sign
  delimiters, the conversion succeeds, and the content is returned as it came.
\<close>

theorem forbidden_delimiter_counterexample:
  \<open>fst (convertToPressbooks
          (answering (Some (lit ''{"convertedContent":"$x$","summary":"ok"}'')))
          (lit ''$x$'') []) =
     Inr \<lparr>convertedContent = JStr (lit ''$x$''), summary = JStr (lit ''ok''),
          errors = JUndefined\<rparr> \<and>
   has_forbidden_delimiter (JStr (lit ''$x$''))\<close>
  by (simp add: convertToPressbooks_def answering_def recording_def parse_response_def
                text_or_default_def json_eval build_result_def or_else_def
                has_forbidden_delimiter_def forbidden_delimiters_def)

section \<open>Properties of the handlers\<close>

lemma trim_blank: "trim s = [] \<longleftrightarrow> (\<forall>c\<in>set s. is_white_space c)"
proof
  assume "trim s = []"
  then have a: "\<forall>x\<in>set (dropWhile is_white_space s). is_white_space x"
    by (simp add: trim_def dropWhile_eq_Nil_conv)
  have "dropWhile is_white_space s = []"
  proof (rule ccontr)
    assume n: "dropWhile is_white_space s \<noteq> []"
    then have "\<not> is_white_space (hd (dropWhile is_white_space s))"
      by (rule hd_dropWhile)
    moreover from n have "hd (dropWhile is_white_space s) \<in> set (dropWhile is_white_space s)"
      by (rule hd_in_set)
    ultimately show False using a by blast
  qed
  then show "\<forall>c\<in>set s. is_white_space c"
    by (simp add: dropWhile_eq_Nil_conv)
next
  assume "\<forall>c\<in>set s. is_white_space c"
  then show "trim s = []"
    by (auto simp: trim_def dest: set_dropWhileD)
qed

text \<open>
  C4. When the conversion fails, \<^verbatim>\<open>handleConvert\<close> ends in the state it started from with
  only the error message set and the loading flag cleared: the input and the stored result
  are as before. Running the handler again from that state does what it would have done
  from the state before the failed call.
\<close>

theorem failed_convert_keeps_input:
  assumes "trim (input s) \<noteq> []"
    and "fst (convertToPressbooks ai (input s) w) = Inl e"
  shows "fst (handleConvert ai s w) = s\<lparr>isLoading := False, error := Some (message e)\<rparr> \<and>
         input (fst (handleConvert ai s w)) = input s \<and>
         result (fst (handleConvert ai s w)) = result s \<and>
         handleConvert ai' (fst (handleConvert ai s w)) w' = handleConvert ai' s w'"
proof -
  obtain res w1 where c: "convertToPressbooks ai (input s) w = (res, w1)"
    by (cases "convertToPressbooks ai (input s) w")
  with assms(2) have r: "res = Inl e" by simp
  have h: "fst (handleConvert ai s w) = s\<lparr>isLoading := False, error := Some (message e)\<rparr>"
    using assms(1) c r by (simp add: handleConvert_def)
  show ?thesis
    unfolding h using assms(1) by (simp add: handleConvert_def)
qed

text \<open>The input \<^verbatim>\<open>x\<close> with a capability that cannot be reached, and a retry that is answered.\<close>

theorem failed_convert_keeps_input_witness:
  "trim (input (initial_state\<lparr>input := lit ''x''\<rparr>)) \<noteq> [] \<and>
   fst (convertToPressbooks (failing (Error (lit ''unreachable'')))
          (input (initial_state\<lparr>input := lit ''x''\<rparr>)) []) = Inl (Error (lit ''unreachable'')) \<and>
   fst (handleConvert (failing (Error (lit ''unreachable''))) (initial_state\<lparr>input := lit ''x''\<rparr>) []) =
     initial_state\<lparr>input := lit ''x'', isLoading := False, error := Some (lit ''unreachable'')\<rparr> \<and>
   handleConvert (answering None)
       (fst (handleConvert (failing (Error (lit ''unreachable'')))
               (initial_state\<lparr>input := lit ''x''\<rparr>) []))
       [request_for (lit ''x'')] =
     handleConvert (answering None) (initial_state\<lparr>input := lit ''x''\<rparr>) [request_for (lit ''x'')]"
proof -
  have a: "trim (input (initial_state\<lparr>input := lit ''x''\<rparr>)) \<noteq> []"
    by (simp add: trim_def lit_def ch_def is_white_space_def)
  have b: "fst (convertToPressbooks (failing (Error (lit ''unreachable'')))
          (input (initial_state\<lparr>input := lit ''x''\<rparr>)) []) = Inl (Error (lit ''unreachable''))"
    by (simp add: convertToPressbooks_def failing_def recording_def)
  note t = failed_convert_keeps_input [OF a b, of "answering None" "[request_for (lit ''x'')]",
      unfolded message.simps]
  from a b t show ?thesis
    by blast
qed

text \<open>
  C10. When the input is empty or has only white space, \<^verbatim>\<open>handleConvert\<close> returns at its
  guard: the capability is not invoked, its state is as before, and the state of the
  application, with its result, error and loading flag, is the one it started from.
\<close>

theorem handleConvert_blank:
  "\<forall>c\<in>set (input s). is_white_space c \<Longrightarrow> handleConvert ai s w = (s, w)"
  by (simp add: handleConvert_def trim_blank)

text \<open>An input of a space, a tab and a line feed.\<close>

theorem handleConvert_blank_witness:
  "list_all is_white_space (input (initial_state\<lparr>input := [0x20, 0x09, 0x0A]\<rparr>)) \<and>
   handleConvert (answering None) (initial_state\<lparr>input := [0x20, 0x09, 0x0A]\<rparr>) [] =
     (initial_state\<lparr>input := [0x20, 0x09, 0x0A]\<rparr>, [])"
proof -
  have a: "\<forall>c\<in>set (input (initial_state\<lparr>input := [0x20, 0x09, 0x0A]\<rparr>)). is_white_space c"
    by (simp add: is_white_space_def)
  from a handleConvert_blank [OF a, of "answering None" "[]"] show ?thesis
    by (simp add: list_all_iff)
qed

lemma extract_pages_readable:
  "1 \<le> i \<Longrightarrow> i \<le> Suc (length pages) \<Longrightarrow>
   extract_pages (map Inr pages) i acc = Inr (acc @ pages_text (drop (i - 1) pages))"
proof (induction "Suc (length pages) - i" arbitrary: i acc)
  case 0
  then have "i = Suc (length pages)" by simp
  then show ?case
    by (simp add: numPages_def pages_text_def)
next
  case (Suc k)
  then have le: "i \<le> length pages" and pos: "1 \<le> i" by simp_all
  from le pos have d: "drop (i - 1) pages = pages ! (i - 1) # drop i pages"
  proof -
    from le pos have "i - 1 < length pages" by simp
    then have "drop (i - 1) pages = pages ! (i - 1) # drop (Suc (i - 1)) pages"
      by (simp add: Cons_nth_drop_Suc)
    with pos show ?thesis by simp
  qed
  have k: "k = Suc (length pages) - (i + 1)" using Suc(2) by simp
  have "extract_pages (map Inr pages) (i + 1)
          (acc @ join (lit '' '') (map str (pages ! (i - 1))) @ lit ''\<newline>'') =
        Inr ((acc @ join (lit '' '') (map str (pages ! (i - 1))) @ lit ''\<newline>'') @
             pages_text (drop ((i + 1) - 1) pages))"
    using Suc(1) [OF k] le by simp
  with le pos d show ?case
    by (subst extract_pages.simps) (simp add: numPages_def getPage_def pages_text_def)
qed

text \<open>
  C7. For a PDF whose document and pages can all be read, \<^verbatim>\<open>extractTextFromPDF\<close> returns
  one string: from the first page to the last, the text items of the page joined by single
  spaces, then a line feed. Nothing else is done to the text.
\<close>

theorem extractTextFromPDF_readable:
  "extractTextFromPDF (Inr (map Inr pages)) = Inr (pages_text pages)"
  using extract_pages_readable [of 1 pages "[]"] by (simp add: extractTextFromPDF_def)

text \<open>
  Three pages, the second without text; the dollar signs of the first item stay as they
  are.
\<close>

theorem extractTextFromPDF_readable_witness:
  "extractTextFromPDF
     (Inr [Inr [\<lparr>str = lit ''$x$''\<rparr>, \<lparr>str = lit ''is''\<rparr>], Inr [], Inr [\<lparr>str = lit ''a''\<rparr>]]) =
   Inr (lit ''$x$ is\<newline>\<newline>a\<newline>'')"
  using extractTextFromPDF_readable
          [of "[[\<lparr>str = lit ''$x$''\<rparr>, \<lparr>str = lit ''is''\<rparr>], [], [\<lparr>str = lit ''a''\<rparr>]]"]
  by (simp add: pages_text_def lit_def)

lemma split3: "cp div 0x1000 * 0x1000 + cp div 0x40 mod 0x40 * 0x40 + cp mod 0x40 = (cp::nat)"
proof -
  have a: "cp mod 0x1000 div 0x40 = cp div 0x40 mod 0x40"
    by (simp add: mod_mult2_eq [of cp 64 64, simplified])
  have b: "cp mod 0x1000 mod 0x40 = cp mod 0x40"
    by (simp add: mod_mod_cancel)
  have "cp mod 0x1000 = cp mod 0x1000 div 0x40 * 0x40 + cp mod 0x1000 mod 0x40"
    by (simp only: div_mult_mod_eq)
  then have "cp mod 0x1000 = cp div 0x40 mod 0x40 * 0x40 + cp mod 0x40"
    by (simp only: a b)
  moreover have "cp div 0x1000 * 0x1000 + cp mod 0x1000 = cp"
    by (simp only: div_mult_mod_eq)
  ultimately show ?thesis by linarith
qed

lemma split4:
  "cp div 0x40000 * 0x40000 + cp div 0x1000 mod 0x40 * 0x1000 + cp div 0x40 mod 0x40 * 0x40 +
   cp mod 0x40 = (cp::nat)"
proof -
  have a: "cp mod 0x40000 div 0x1000 = cp div 0x1000 mod 0x40"
    by (simp add: mod_mult2_eq [of cp 4096 64, simplified])
  have b: "cp mod 0x40000 mod 0x1000 = cp mod 0x1000"
    by (simp add: mod_mod_cancel)
  have "cp mod 0x40000 = cp mod 0x40000 div 0x1000 * 0x1000 + cp mod 0x40000 mod 0x1000"
    by (simp only: div_mult_mod_eq)
  then have "cp mod 0x40000 = cp div 0x1000 mod 0x40 * 0x1000 + cp mod 0x1000"
    by (simp only: a b)
  moreover have "cp div 0x40000 * 0x40000 + cp mod 0x40000 = cp"
    by (simp only: div_mult_mod_eq)
  moreover have "cp mod 0x1000 = cp div 0x40 mod 0x40 * 0x40 + cp mod 0x40"
    using split3 [of "cp mod 0x1000"]
    by (simp add: mod_mod_cancel mod_mult2_eq [of cp 64 64, simplified])
  ultimately show ?thesis by linarith
qed

lemma utf8_decode_2:
  "0x80 \<le> b \<Longrightarrow> b < 0xE0 \<Longrightarrow>
   utf8_decode (b # b2 # rest) = ((b - 0xC0) * 0x40 + (b2 - 0x80)) # utf8_decode rest"
  by simp

lemma utf8_decode_3:
  "0xE0 \<le> b \<Longrightarrow> b < 0xF0 \<Longrightarrow>
   utf8_decode (b # b2 # b3 # rest) =
     ((b - 0xE0) * 0x1000 + (b2 - 0x80) * 0x40 + (b3 - 0x80)) # utf8_decode rest"
  by simp

lemma utf8_decode_4:
  "0xF0 \<le> b \<Longrightarrow>
   utf8_decode (b # b2 # b3 # b4 # rest) =
     ((b - 0xF0) * 0x40000 + (b2 - 0x80) * 0x1000 + (b3 - 0x80) * 0x40 + (b4 - 0x80)) #
       utf8_decode rest"
  by simp

lemma utf8_decode_of:
  assumes "cp < 0x110000"
  shows "utf8_decode (utf8_of cp @ rest) = cp # utf8_decode rest"
proof -
  consider "cp < 0x80" | "0x80 \<le> cp" "cp < 0x800" | "0x800 \<le> cp" "cp < 0x10000"
    | "0x10000 \<le> cp"
    by linarith
  then show ?thesis
  proof cases
    case 1
    then show ?thesis by (simp add: utf8_of_def)
  next
    case 2
    then have e: "utf8_of cp @ rest = (0xC0 + cp div 0x40) # (0x80 + cp mod 0x40) # rest"
      by (simp add: utf8_of_def)
    from 2 have "cp div 0x40 < 0x20"
      by simp
    then have b: "0x80 \<le> 0xC0 + cp div 0x40" "0xC0 + cp div 0x40 < 0xE0"
      by linarith+
    have v: "(0xC0 + cp div 0x40 - 0xC0) * 0x40 + (0x80 + cp mod 0x40 - 0x80) = cp"
      by simp
    show ?thesis
      unfolding e utf8_decode_2 [OF b] v ..
  next
    case 3
    then have e: "utf8_of cp @ rest =
        (0xE0 + cp div 0x1000) # (0x80 + cp div 0x40 mod 0x40) # (0x80 + cp mod 0x40) # rest"
      by (simp add: utf8_of_def)
    from 3 have "cp div 0x1000 < 0x10"
      by simp
    then have b: "0xE0 \<le> 0xE0 + cp div 0x1000" "0xE0 + cp div 0x1000 < 0xF0"
      by linarith+
    have v: "(0xE0 + cp div 0x1000 - 0xE0) * 0x1000 + (0x80 + cp div 0x40 mod 0x40 - 0x80) * 0x40 +
             (0x80 + cp mod 0x40 - 0x80) = cp"
      using split3 [of cp] by simp
    show ?thesis
      unfolding e utf8_decode_3 [OF b] v ..
  next
    case 4
    then have e: "utf8_of cp @ rest =
        (0xF0 + cp div 0x40000) # (0x80 + cp div 0x1000 mod 0x40) #
        (0x80 + cp div 0x40 mod 0x40) # (0x80 + cp mod 0x40) # rest"
      by (simp add: utf8_of_def)
    have b: "0xF0 \<le> 0xF0 + cp div 0x40000"
      by simp
    have v: "(0xF0 + cp div 0x40000 - 0xF0) * 0x40000 +
             (0x80 + cp div 0x1000 mod 0x40 - 0x80) * 0x1000 +
             (0x80 + cp div 0x40 mod 0x40 - 0x80) * 0x40 + (0x80 + cp mod 0x40 - 0x80) = cp"
      using split4 [of cp] by simp
    show ?thesis
      unfolding e utf8_decode_4 [OF b] v ..
  qed
qed

lemma scalar_values_bound: "\<forall>cp\<in>set (scalar_values s). cp < 0x110000"
proof (induction s rule: scalar_values.induct)
  case 1
  then show ?case by simp
next
  case (2 c)
  have "unat c < 0x10000" using unsigned_less [of c] by simp
  then show ?case by simp
next
  case (3 c d cs)
  have c: "unat c < 0x10000" and d: "unat d < 0x10000"
    using unsigned_less [of c] unsigned_less [of d] by simp_all
  from c d have "0x10000 + (unat c - 0xD800) * 0x400 + (unat d - 0xDC00) < (0x110000::nat)"
    if "unat c \<le> 0xDBFF" "unat d \<le> 0xDFFF"
    using that by linarith
  with 3 c show ?case
    by (auto simp: word_le_nat_alt)
qed

lemma utf8_decode_encode:
  "\<forall>cp\<in>set cps. cp < 0x110000 \<Longrightarrow> utf8_decode (concat (map utf8_of cps)) = cps"
  by (induction cps) (simp_all add: utf8_decode_of)

lemma utf16_of_unit: "utf16_of (unat c) = [c]" for c :: "16 word"
  using unsigned_less [of c] by (simp add: utf16_of_def)

lemma utf16_of_pair:
  fixes c d :: "16 word"
  assumes "0xD800 \<le> c" "c \<le> 0xDBFF" "0xDC00 \<le> d" "d \<le> 0xDFFF"
  shows "utf16_of (0x10000 + (unat c - 0xD800) * 0x400 + (unat d - 0xDC00)) = [c, d]"
proof -
  from assms have c: "0xD800 \<le> unat c" "unat c \<le> 0xDBFF"
    and d: "0xDC00 \<le> unat d" "unat d \<le> 0xDFFF"
    by (simp_all add: word_le_nat_alt)
  from d have lo: "unat d - 0xDC00 < 0x400" by linarith
  have "((unat c - 0xD800) * 0x400 + (unat d - 0xDC00)) div 0x400 = unat c - 0xD800"
    using lo by simp
  moreover have "((unat c - 0xD800) * 0x400 + (unat d - 0xDC00)) mod 0x400 = unat d - 0xDC00"
    using lo by simp
  ultimately show ?thesis
    using c d by (simp add: utf16_of_def)
qed

lemma scalar_values_back:
  "\<not> lone_surrogate s \<Longrightarrow> concat (map utf16_of (scalar_values s)) = s"
proof (induction s rule: lone_surrogate.induct)
  case 1
  then show ?case by simp
next
  case (2 c)
  then show ?case by (auto simp: utf16_of_unit)
next
  case (3 c d cs)
  then show ?case
    by (auto simp: utf16_of_unit utf16_of_pair split: if_splits)
qed

lemma string_bytes_back: "\<not> lone_surrogate s \<Longrightarrow> decoded (string_bytes s) = s"
  by (simp add: decoded_def string_bytes_def utf8_decode_encode scalar_values_bound
                scalar_values_back)



text \<open>
  C5, as amended. With a stored result whose \<open>convertedContent\<close> is a string in which every
  surrogate has its partner, \<^verbatim>\<open>downloadMarkdown\<close> saves one file of type \<^verbatim>\<open>text/markdown\<close>
  whose bytes are the UTF-8 encoding of exactly that string, so that reading the bytes
  back gives the string, and leaves the state, with the stored result, as it was.
\<close>

theorem downloadMarkdown_writes_content:
  assumes "result s = Some r" and "convertedContent r = JStr c" and "\<not> lone_surrogate c"
  shows "\<exists>b. downloadMarkdown s = (s, [SaveBlob (lit ''pressbook-chapter.md'') b]) \<and>
             blobType b = lit ''text/markdown'' \<and>
             blob_bytes num b = concat (map utf8_of (scalar_values c)) \<and>
             decoded (blob_bytes num b) = c"
  using assms
  by (simp add: downloadMarkdown_def blob_bytes_def string_bytes_back
                string_bytes_def [symmetric])

text \<open>The export of a stored sample result: the bytes are the ASCII codes of its content.\<close>

theorem downloadMarkdown_writes_content_witness:
  "result (initial_state\<lparr>result := Some sample_result\<rparr>) = Some sample_result \<and>
   convertedContent sample_result = JStr (lit ''[latex]x[/latex]'') \<and>
   \<not> lone_surrogate (lit ''[latex]x[/latex]'') \<and>
   (\<exists>b. downloadMarkdown (initial_state\<lparr>result := Some sample_result\<rparr>) =
          (initial_state\<lparr>result := Some sample_result\<rparr>,
           [SaveBlob (lit ''pressbook-chapter.md'') b]) \<and>
        blob_bytes unformatted b =
          [91, 108, 97, 116, 101, 120, 93, 120, 91, 47, 108, 97, 116, 101, 120, 93] \<and>
        decoded (blob_bytes unformatted b) = lit ''[latex]x[/latex]'')"
proof -
  have a: "result (initial_state\<lparr>result := Some sample_result\<rparr>) = Some sample_result"
    by simp
  have b: "convertedContent sample_result = JStr (lit ''[latex]x[/latex]'')"
    by (simp add: sample_result_def)
  have c: "\<not> lone_surrogate (lit ''[latex]x[/latex]'')"
    by (simp add: lit_def ch_def)
  have d: "concat (map utf8_of (scalar_values (lit ''[latex]x[/latex]''))) =
             [91, 108, 97, 116, 101, 120, 93, 120, 91, 47, 108, 97, 116, 101, 120, 93]"
    by (simp add: lit_def ch_def utf8_of_def)
  from downloadMarkdown_writes_content [OF a b c, of unformatted] a b c d
  show ?thesis
    by auto
qed

text \<open>
  C5 as stated fails. The response \<^verbatim>\<open>{"convertedContent":"\ud83d","summary":"ok"}\<close> gives
  a content of one code unit, a high surrogate without its partner. The export writes
  the three bytes of U+FFFD, which are not that character: read back, they give a
  different string.
\<close>

theorem lone_surrogate_counterexample:
  "parse_response
     (Some (lit ''{\"convertedContent\":\"'' @ [0x5C] @ lit ''ud83d\",\"summary\":\"ok\"}'')) =
     Inr \<lparr>convertedContent = JStr [0xD83D], summary = JStr (lit ''ok''), errors = JUndefined\<rparr> \<and>
   downloadMarkdown
     (initial_state\<lparr>result := Some \<lparr>convertedContent = JStr [0xD83D],
                                     summary = JStr (lit ''ok''), errors = JUndefined\<rparr>\<rparr>) =
     (initial_state\<lparr>result := Some \<lparr>convertedContent = JStr [0xD83D],
                                     summary = JStr (lit ''ok''), errors = JUndefined\<rparr>\<rparr>,
      [SaveBlob (lit ''pressbook-chapter.md'')
         \<lparr>blobParts = [JStr [0xD83D]], blobType = lit ''text/markdown''\<rparr>]) \<and>
   blob_bytes unformatted \<lparr>blobParts = [JStr [0xD83D]], blobType = lit ''text/markdown''\<rparr> =
     [0xEF, 0xBF, 0xBD] \<and>
   decoded [0xEF, 0xBF, 0xBD] = [0xFFFD] \<and>
   [0xFFFD] \<noteq> [0xD83D :: 16 word]"
  by (simp add: parse_response_def text_or_default_def json_eval build_result_def or_else_def
                hex4_def hex_val_def downloadMarkdown_def blob_bytes_def string_bytes_def
                utf8_of_def decoded_def utf16_of_def)

lemma line_fits:
  assumes "20 \<le> pageHeight" and "j < lines_per_page pageHeight"
  shows "\<not> (10 + 7 * of_nat j > pageHeight - 10)"
proof -
  let ?x = "(pageHeight - 20) / 7"
  from assms(1) have x0: "0 \<le> ?x" by simp
  then have f0: "0 \<le> \<lfloor>?x\<rfloor>" by simp
  from assms(2) have "j \<le> nat \<lfloor>?x\<rfloor>"
    by (simp add: lines_per_page_def)
  then have "int j \<le> int (nat \<lfloor>?x\<rfloor>)"
    by (simp only: of_nat_le_iff)
  with f0 have "int j \<le> \<lfloor>?x\<rfloor>"
    by simp
  then have "(of_int (int j) :: rat) \<le> of_int \<lfloor>?x\<rfloor>"
    by (simp only: of_int_le_iff)
  also have "\<dots> \<le> ?x" by (rule of_int_floor_le)
  finally have "(of_nat j :: rat) \<le> ?x" by simp
  then show ?thesis by (simp add: field_simps)
qed

lemma page_full:
  assumes "20 \<le> pageHeight"
  shows "10 + 7 * of_nat (lines_per_page pageHeight) > pageHeight - 10"
proof -
  let ?x = "(pageHeight - 20) / 7"
  from assms have "0 \<le> \<lfloor>?x\<rfloor>" by simp
  then have "(of_nat (lines_per_page pageHeight) :: rat) = of_int \<lfloor>?x\<rfloor> + 1"
    by (simp add: lines_per_page_def)
  moreover have "?x < of_int \<lfloor>?x\<rfloor> + 1"
    using floor_correct [of ?x] by simp
  ultimately have "?x < of_nat (lines_per_page pageHeight)" by simp
  then show ?thesis by (simp add: field_simps)
qed

lemma draw_lines_paged_from:
  assumes h: "20 \<le> pageHeight"
    and inv: "(c = 10 + 7 * of_nat (i mod lines_per_page pageHeight) \<and>
               (i = 0 \<or> i mod lines_per_page pageHeight \<noteq> 0)) \<or>
              (0 < i \<and> i mod lines_per_page pageHeight = 0 \<and>
               c = 10 + 7 * of_nat (lines_per_page pageHeight))"
  shows "draw_lines pageHeight 10 ls c =
           concat (map (place_line (lines_per_page pageHeight)) (enumerate i ls))"
  using inv
proof (induction ls arbitrary: i c)
  case Nil
  then show ?case by simp
next
  case (Cons line ls)
  let ?n = "lines_per_page pageHeight"
  have npos: "0 < ?n" by (simp add: lines_per_page_def)
  from Cons.prems show ?case
  proof
    assume "c = 10 + 7 * of_nat (i mod ?n) \<and> (i = 0 \<or> i mod ?n \<noteq> 0)"
    then have c: "c = 10 + 7 * of_nat (i mod ?n)" and i: "i = 0 \<or> i mod ?n \<noteq> 0"
      by simp_all
    from npos have "i mod ?n < ?n" by simp
    then have fits: "\<not> (c > pageHeight - 10)"
      unfolding c by (rule line_fits [OF h])
    have nxt: "(c + 7 = 10 + 7 * of_nat (Suc i mod ?n) \<and> (Suc i = 0 \<or> Suc i mod ?n \<noteq> 0)) \<or>
               (0 < Suc i \<and> Suc i mod ?n = 0 \<and> c + 7 = 10 + 7 * of_nat ?n)"
    proof (cases "Suc (i mod ?n) = ?n")
      case True
      then have "Suc i mod ?n = 0" by (simp add: mod_Suc)
      moreover have "(of_nat ?n :: rat) = of_nat (i mod ?n) + 1"
        by (subst True [symmetric]) simp
      then have "c + 7 = 10 + 7 * of_nat ?n"
        unfolding c by simp
      ultimately show ?thesis by simp
    next
      case False
      then have "Suc i mod ?n = Suc (i mod ?n)" by (simp add: mod_Suc)
      then show ?thesis unfolding c by simp
    qed
    have here: "place_line ?n (i, line) = [DrawText line 10 c]"
      using i c by (auto simp: place_line_def)
    show ?thesis
      using fits here Cons.IH [OF nxt] by simp
  next
    assume "0 < i \<and> i mod ?n = 0 \<and> c = 10 + 7 * of_nat ?n"
    then have i: "0 < i" "i mod ?n = 0" and c: "c = 10 + 7 * of_nat ?n"
      by simp_all
    have full: "c > pageHeight - 10"
      unfolding c by (rule page_full [OF h])
    have nxt: "((10::rat) + 7 = 10 + 7 * of_nat (Suc i mod ?n) \<and> (Suc i = 0 \<or> Suc i mod ?n \<noteq> 0)) \<or>
               (0 < Suc i \<and> Suc i mod ?n = 0 \<and> (10::rat) + 7 = 10 + 7 * of_nat ?n)"
    proof (cases "?n = 1")
      case True
      then show ?thesis by simp
    next
      case False
      with npos have "Suc i mod ?n = 1" using i(2) by (simp add: mod_Suc)
      then show ?thesis by simp
    qed
    have here: "place_line ?n (i, line) = [AddPage, DrawText line 10 10]"
      using i by (simp add: place_line_def)
    show ?thesis
      using full here Cons.IH [OF nxt] by simp
  qed
qed

lemma a4_lines: "lines_per_page a4_height = 40"
proof -
  have "\<lfloor>(a4_height - 20) / 7\<rfloor> = 39"
    by (rule floor_unique) (simp_all add: a4_height_def)
  then show ?thesis
    by (simp add: lines_per_page_def)
qed


text \<open>
  C6. With a stored result, \<^verbatim>\<open>downloadPDF\<close> wraps \<open>convertedContent\<close>, as it is, at the
  page width less the two margins of 10, and draws the lines in order at the left margin.
  On a page at least as high as the two margins, every page takes the same number of
  lines, each 7 below the one before, starting at the top margin; a page is added exactly
  before a line that would come below the page height less the margin.
\<close>

theorem downloadPDF_pages:
  assumes "result s = Some r" and "20 \<le> pageHeight"
  shows "downloadPDF splitTextToSize pageWidth pageHeight s =
           (s, [SavePdf (lit ''pressbook-chapter.pdf'')
                  (paged (lines_per_page pageHeight)
                     (splitTextToSize (convertedContent r) (pageWidth - 20)))])"
proof -
  have "draw_lines pageHeight 10 ls 10 = paged (lines_per_page pageHeight) ls" for ls
    unfolding paged_def by (rule draw_lines_paged_from [OF assms(2)]) simp
  with assms(1) show ?thesis
    by (simp add: downloadPDF_def)
qed

text \<open>Three lines on a page of height 30, which takes two lines.\<close>

theorem downloadPDF_pages_witness:
  "result (initial_state\<lparr>result := Some sample_result\<rparr>) = Some sample_result \<and>
   (20::rat) \<le> 30 \<and>
   downloadPDF (fixed_lines [lit ''a'', lit ''b'', lit ''c'']) 210 30
       (initial_state\<lparr>result := Some sample_result\<rparr>) =
     (initial_state\<lparr>result := Some sample_result\<rparr>,
      [SavePdf (lit ''pressbook-chapter.pdf'')
         [DrawText (lit ''a'') 10 10, DrawText (lit ''b'') 10 17, AddPage,
          DrawText (lit ''c'') 10 10]])"
proof -
  have a: "result (initial_state\<lparr>result := Some sample_result\<rparr>) = Some sample_result"
    by simp
  have b: "(20::rat) \<le> 30"
    by simp
  have "\<lfloor>((30::rat) - 20) / 7\<rfloor> = 1"
    by (rule floor_unique) simp_all
  then have n: "lines_per_page 30 = 2"
    by (simp add: lines_per_page_def)
  have p: "paged 2 [lit ''a'', lit ''b'', lit ''c''] =
             [DrawText (lit ''a'') 10 10, DrawText (lit ''b'') 10 17, AddPage,
              DrawText (lit ''c'') 10 10]"
    by (simp add: paged_def place_line_def)
  from downloadPDF_pages [OF a b, of "fixed_lines [lit ''a'', lit ''b'', lit ''c'']" 210] a b n p
  show ?thesis
    by (simp add: fixed_lines_def)
qed



end
